theory Spec2Isabelle
  imports Main "HOL-Library.Word"
begin

section \<open>The remote read client of vmctl (app/vmctl/remoteread/remoteread.go)\<close>

text \<open>
  A shallow embedding of \<^verbatim>\<open>query\<close>, \<^verbatim>\<open>toLabelMatchers\<close>, \<^verbatim>\<open>parseSamples\<close>,
  \<^verbatim>\<open>fetch\<close> and \<^verbatim>\<open>Read\<close>. The libraries the client calls (the Prometheus
  matcher and chunk packages, protobuf, snappy, net/http) are not part of the package;
  what they answer is a parameter of the model, collected in the record \<open>extern\<close>.
\<close>

subsection \<open>Basic types\<close>

type_synonym bytes = "8 word list"
type_synonym int64 = "64 word"

text \<open>A float64 is carried as its IEEE-754 bit pattern: the client never computes with it.\<close>

type_synonym float64 = "64 word"

subsection \<open>Errors\<close>

text \<open>
  One constructor for every \<^verbatim>\<open>fmt.Errorf\<close> of the modelled functions, holding the
  arguments of the format string in their order; an \<open>error\<close> argument is the one
  formatted with \<^verbatim>\<open>%w\<close>. \<open>Canceled\<close> is \<^verbatim>\<open>context.Canceled\<close>, \<open>EOF\<close> is
  \<^verbatim>\<open>io.EOF\<close>, \<open>Foreign\<close> is an error of a library or of the callback that wraps no
  other error, and \<open>Wrapping\<close> one that wraps another error (as \<^verbatim>\<open>*url.Error\<close> does).
\<close>

datatype error =
    Canceled
  | EOF
  | Foreign string
  | Wrapping string error
  | ErrPrepareQuery error           \<comment> \<open>\<^verbatim>\<open>error prepare stream query: %w\<close>\<close>
  | ErrMarshal error                \<comment> \<open>\<^verbatim>\<open>unable to marshal read request: %w\<close>\<close>
  | ErrProcessStoped                \<comment> \<open>\<^verbatim>\<open>process stoped\<close>\<close>
  | ErrNewRequest error             \<comment> \<open>\<^verbatim>\<open>failed to create new HTTP request: %w\<close>\<close>
  | ErrSending string error int int \<comment> \<open>\<^verbatim>\<open>error while sending request to %s: %w; Data len %d(%d)\<close>\<close>
  | ErrResponseCode int string string
                                    \<comment> \<open>\<^verbatim>\<open>unexpected response code %d for %s. Response body %q\<close>\<close>
  | ErrInvalidMatcher               \<comment> \<open>\<^verbatim>\<open>invalid matcher type\<close>\<close>
  | ErrReadChunk error              \<comment> \<open>\<^verbatim>\<open>error read chunk: %w\<close>\<close>
  | ErrIterate error                \<comment> \<open>\<^verbatim>\<open>error iterate over chunks: %w\<close>\<close>

text \<open>\<^verbatim>\<open>errors.Is(err, context.Canceled)\<close>: follows the chain of wrapped errors.\<close>

primrec errors_Is_Canceled :: "error \<Rightarrow> bool" where
  "errors_Is_Canceled Canceled = True"
| "errors_Is_Canceled EOF = False"
| "errors_Is_Canceled (Foreign msg) = False"
| "errors_Is_Canceled (Wrapping msg err) = errors_Is_Canceled err"
| "errors_Is_Canceled (ErrPrepareQuery err) = errors_Is_Canceled err"
| "errors_Is_Canceled (ErrMarshal err) = errors_Is_Canceled err"
| "errors_Is_Canceled ErrProcessStoped = False"
| "errors_Is_Canceled (ErrNewRequest err) = errors_Is_Canceled err"
| "errors_Is_Canceled (ErrSending url err n m) = errors_Is_Canceled err"
| "errors_Is_Canceled (ErrResponseCode code url body) = False"
| "errors_Is_Canceled ErrInvalidMatcher = False"
| "errors_Is_Canceled (ErrReadChunk err) = errors_Is_Canceled err"
| "errors_Is_Canceled (ErrIterate err) = errors_Is_Canceled err"

text \<open>A call either panics or returns.\<close>

datatype 'a outcome = Panic error | Return 'a

subsection \<open>Messages of the remote read protocol (prompb)\<close>

record Label =
  Name :: string
  Value :: string

record Sample =
  Value :: float64
  Timestamp :: int64

record TimeSeries =
  Labels :: "Label list"
  Samples :: "Sample list"

record Chunk =
  MinTimeMs :: int64
  MaxTimeMs :: int64
  Data :: bytes

record ChunkedSeries =
  Labels :: "Label list"
  Chunks :: "Chunk list"

record ChunkedReadResponse =
  ChunkedSeries :: "ChunkedSeries list"
  QueryIndex :: int64

datatype LabelMatcher_Type = LabelMatcher_EQ | LabelMatcher_NEQ | LabelMatcher_RE | LabelMatcher_NRE

record LabelMatcher =
  Type :: LabelMatcher_Type
  Name :: string
  Value :: string

record Query =
  StartTimestampMs :: int64
  EndTimestampMs :: int64
  Matchers :: "LabelMatcher list"

datatype ReadRequest_ResponseType = ReadRequest_SAMPLES | ReadRequest_STREAMED_XOR_CHUNKS

record ReadRequest =
  Queries :: "Query list"
  AcceptedResponseTypes :: "ReadRequest_ResponseType list"

subsection \<open>Matchers of the Prometheus labels package\<close>

text \<open>\<^verbatim>\<open>type MatchType int\<close> with four named values; any other integer is a MatchType too.\<close>

type_synonym MatchType = int

definition MatchEqual :: MatchType where "MatchEqual = 0"
definition MatchNotEqual :: MatchType where "MatchNotEqual = 1"
definition MatchRegexp :: MatchType where "MatchRegexp = 2"
definition MatchNotRegexp :: MatchType where "MatchNotRegexp = 3"

definition MetricName :: string where "MetricName = ''__name__''"

record Matcher =
  Type :: MatchType
  Name :: string
  Value :: string

text \<open>
  \<^verbatim>\<open>labels.NewMatcher\<close> fills the three fields and, for the two regexp types, compiles
  the value; \<^verbatim>\<open>labels.MustNewMatcher\<close> panics with the error of \<^verbatim>\<open>NewMatcher\<close>.
  The regexp compiler is the parameter \<open>compile\<close>: \<open>None\<close> when the pattern compiles.
\<close>

definition NewMatcher :: "(string \<Rightarrow> error option) \<Rightarrow> MatchType \<Rightarrow> string \<Rightarrow> string \<Rightarrow> error + Matcher" where
  "NewMatcher compile t n v =
     (let m = \<lparr>Matcher.Type = t, Matcher.Name = n, Matcher.Value = v\<rparr>
      in if t = MatchRegexp \<or> t = MatchNotRegexp
         then (case compile v of Some err \<Rightarrow> Inl err | None \<Rightarrow> Inr m)
         else Inr m)"

definition MustNewMatcher :: "(string \<Rightarrow> error option) \<Rightarrow> MatchType \<Rightarrow> string \<Rightarrow> string \<Rightarrow> Matcher outcome" where
  "MustNewMatcher compile mt name val =
     (case NewMatcher compile mt name val of Inl err \<Rightarrow> Panic err | Inr m \<Rightarrow> Return m)"

subsection \<open>The client and its filter\<close>

record Client =
  addr :: string
  user :: string
  password :: string

record Filter =
  Filter_Min :: int64
  Filter_Max :: int64
  Label :: string
  LabelValue :: string

subsection \<open>toLabelMatchers\<close>

definition toLabelMatchers :: "Matcher \<Rightarrow> error + LabelMatcher" where
  "toLabelMatchers matcher =
     (if Matcher.Type matcher = MatchEqual then
        Inr \<lparr>LabelMatcher.Type = LabelMatcher_EQ, LabelMatcher.Name = Matcher.Name matcher,
             LabelMatcher.Value = Matcher.Value matcher\<rparr>
      else if Matcher.Type matcher = MatchNotEqual then
        Inr \<lparr>LabelMatcher.Type = LabelMatcher_NEQ, LabelMatcher.Name = Matcher.Name matcher,
             LabelMatcher.Value = Matcher.Value matcher\<rparr>
      else if Matcher.Type matcher = MatchRegexp then
        Inr \<lparr>LabelMatcher.Type = LabelMatcher_RE, LabelMatcher.Name = Matcher.Name matcher,
             LabelMatcher.Value = Matcher.Value matcher\<rparr>
      else if Matcher.Type matcher = MatchNotRegexp then
        Inr \<lparr>LabelMatcher.Type = LabelMatcher_NRE, LabelMatcher.Name = Matcher.Name matcher,
             LabelMatcher.Value = Matcher.Value matcher\<rparr>
      else Inl ErrInvalidMatcher)"

subsection \<open>query\<close>

definition query :: "(string \<Rightarrow> error option) \<Rightarrow> Client \<Rightarrow> Filter \<Rightarrow> (error + Query) outcome" where
  "query compile c flt =
     (case (if Label flt = '''' \<and> LabelValue flt = ''''
            then MustNewMatcher compile MatchRegexp MetricName ''.+''
            else MustNewMatcher compile MatchRegexp (Label flt) (LabelValue flt)) of
        Panic p \<Rightarrow> Panic p
      | Return ms \<Rightarrow>
          (case toLabelMatchers ms of
             Inl err \<Rightarrow> Return (Inl err)
           | Inr m \<Rightarrow>
               Return (Inr \<lparr>StartTimestampMs = Filter_Min flt,
                            EndTimestampMs = Filter_Max flt - 1,
                            Matchers = [m]\<rparr>)))"

subsection \<open>parseSamples\<close>

text \<open>
  The chunk package is represented by what it answers to the calls of
  \<^verbatim>\<open>parseSamples\<close>. For an iterator, \<open>steps\<close> has one entry for every call of
  \<^verbatim>\<open>it.Next()\<close> that returns true, holding what \<^verbatim>\<open>it.Err()\<close> and \<^verbatim>\<open>it.At()\<close> answer
  after it, and \<open>final\<close> is what \<^verbatim>\<open>it.Err()\<close> answers once \<^verbatim>\<open>it.Next()\<close> has returned
  false. A chunk holds a bounded number of samples, so the list is finite.
\<close>

record Iterator =
  steps :: "(error option \<times> int64 \<times> float64) list"
  final :: "error option"

text \<open>
  The loop \<^verbatim>\<open>for it.Next() { ... }\<close> and the final \<^verbatim>\<open>return samples, it.Err()\<close>.
  Both results of the Go function are kept: the samples and the error.
\<close>

fun iterate :: "(error option \<times> int64 \<times> float64) list \<Rightarrow> error option \<Rightarrow> Sample list
    \<Rightarrow> Sample list \<times> error option" where
  "iterate [] fin samples = (samples, fin)"
| "iterate ((e, ts, v) # rest) fin samples =
     (case e of
        Some err \<Rightarrow> ([], Some (ErrIterate err))
      | None \<Rightarrow> iterate rest fin (samples @ [\<lparr>Sample.Value = v, Timestamp = ts\<rparr>]))"

text \<open>
  \<open>FromData\<close> stands for \<^verbatim>\<open>chunkenc.FromData(chunkenc.EncXOR, chunk)\<close> followed, when
  that returns no error, by \<^verbatim>\<open>c.Iterator(nil)\<close>. The pair either returns an error,
  returns an iterator, or panics: the iterator of the chunk package skips a header of
  two bytes and panics on a payload that is shorter. \<^verbatim>\<open>parseSamples\<close> does not recover,
  so it panics with it. Whether \<^verbatim>\<open>FromData\<close> ever returns an error for this encoding is
  left to the parameter; the branch of the program is kept.
\<close>

type_synonym decoder = "bytes \<Rightarrow> (error + Iterator) outcome"

definition parseSamples :: "decoder \<Rightarrow> bytes \<Rightarrow> (Sample list \<times> error option) outcome" where
  "parseSamples FromData chunk =
     (case FromData chunk of
        Panic p \<Rightarrow> Panic p
      | Return (Inl err) \<Rightarrow> Return ([], Some (ErrReadChunk err))
      | Return (Inr it) \<Rightarrow> Return (iterate (steps it) (final it) []))"

subsection \<open>HTTP requests and responses\<close>

record URL =
  Redacted :: string

record Request =
  Method :: string
  URL :: URL
  Header :: "string \<Rightarrow> string list"
  Body :: bytes
  BasicAuth :: "(string \<times> string) option"

definition Header_Add :: "string \<Rightarrow> string \<Rightarrow> Request \<Rightarrow> Request" where
  "Header_Add key val req = req\<lparr>Header := (Header req)(key := Header req key @ [val])\<rparr>"

definition Header_Set :: "string \<Rightarrow> string \<Rightarrow> Request \<Rightarrow> Request" where
  "Header_Set key val req = req\<lparr>Header := (Header req)(key := [val])\<rparr>"

definition SetBasicAuth :: "string \<Rightarrow> string \<Rightarrow> Request \<Rightarrow> Request" where
  "SetBasicAuth username passwd req = req\<lparr>BasicAuth := Some (username, passwd)\<rparr>"

text \<open>
  A response body is read in one of two ways: \<^verbatim>\<open>io.ReadAll\<close> gives \<open>ReadAll\<close> (the
  bytes read; its error is dropped by \<^verbatim>\<open>fetch\<close>), and the chunked reader gives the
  messages \<open>frames\<close> that \<^verbatim>\<open>stream.NextProto\<close> reads with a nil error, followed by
  the first non-nil error \<open>ending\<close> (\<^verbatim>\<open>io.EOF\<close> at the end of the stream). The
  timeout of the HTTP client bounds the reading of the body, so the list is finite.
\<close>

record ResponseBody =
  ReadAll :: string
  frames :: "ChunkedReadResponse list"
  ending :: error

record Response =
  StatusCode :: int
  Body :: ResponseBody

definition StatusOK :: int where "StatusOK = 200"
definition StatusNoContent :: int where "StatusNoContent = 204"

definition remoteReadPath :: string where "remoteReadPath = ''/api/v1/read''"

subsection \<open>The libraries and the state\<close>

text \<open>
  \<open>'w\<close> is the state of everything outside the client that its calls can read or
  change: the remote endpoint, the context, the variables of the callback.
\<close>

record 'w extern =
  NewFastRegexMatcher :: "string \<Rightarrow> error option"
  Marshal :: "ReadRequest \<Rightarrow> error + bytes"
  Encode :: "bytes \<Rightarrow> bytes"
  NewRequest :: "string \<Rightarrow> string \<Rightarrow> bytes \<Rightarrow> error + Request"
  Do :: "Request \<Rightarrow> 'w \<Rightarrow> (error + Response) \<times> 'w"
  FromData :: decoder

text \<open>
  The callback receives the series by value and answers with an error or nil; what it
  does besides is a change of \<open>'w\<close>. It does not write into the slices it is given.
\<close>

type_synonym 'w StreamCallback = "TimeSeries \<Rightarrow> 'w \<Rightarrow> error option \<times> 'w"

text \<open>
  Besides the outside world the state records what the client did: the number of
  requests sent, the arguments of the callback invocations (oldest first), the
  attempts logged with \<^verbatim>\<open>logger.Errorf\<close> and the number of \<^verbatim>\<open>time.Sleep(time.Second)\<close>.
  \<^verbatim>\<open>fetch\<close> and \<^verbatim>\<open>Read\<close> give the state they leave together with their outcome: the
  returned error (or nil), or a panic.
\<close>

record 'w state =
  world :: 'w
  sent :: nat
  delivered :: "TimeSeries list"
  logged :: "(nat \<times> error) list"
  slept :: nat

definition call :: "'w StreamCallback \<Rightarrow> TimeSeries \<Rightarrow> 'w state \<Rightarrow> error option \<times> 'w state" where
  "call streamCb ts s =
     (case streamCb ts (world s) of
        (r, w) \<Rightarrow> (r, s\<lparr>world := w, delivered := delivered s @ [ts]\<rparr>))"

subsection \<open>fetch\<close>

text \<open>The loop over \<^verbatim>\<open>series.Chunks\<close>; it returns the error, if any, and \<^verbatim>\<open>ts\<close>.\<close>

fun chunks_loop :: "decoder \<Rightarrow> TimeSeries \<Rightarrow> Chunk list \<Rightarrow> (error option \<times> TimeSeries) outcome" where
  "chunks_loop fd ts [] = Return (None, ts)"
| "chunks_loop fd ts (chunk # rest) =
     (case parseSamples fd (Data chunk) of
        Panic p \<Rightarrow> Panic p
      | Return (samples, Some err) \<Rightarrow> Return (Some err, ts)
      | Return (samples, None) \<Rightarrow>
          chunks_loop fd (ts\<lparr>Samples := Samples ts @ samples\<rparr>) rest)"

text \<open>The loop over \<^verbatim>\<open>res.ChunkedSeries\<close>.\<close>

fun series_loop :: "decoder \<Rightarrow> 'w StreamCallback \<Rightarrow> TimeSeries \<Rightarrow> ChunkedSeries list \<Rightarrow> 'w state
    \<Rightarrow> error option outcome \<times> 'w state" where
  "series_loop fd streamCb ts [] s = (Return None, s)"
| "series_loop fd streamCb ts (series # rest) s =
     (case chunks_loop fd (ts\<lparr>TimeSeries.Labels := TimeSeries.Labels ts @ ChunkedSeries.Labels series\<rparr>)
             (Chunks series) of
        Panic p \<Rightarrow> (Panic p, s)
      | Return (Some err, ts') \<Rightarrow> (Return (Some err), s)
      | Return (None, ts') \<Rightarrow>
          (case call streamCb ts' s of
             (Some err, s') \<Rightarrow> (Return (Some err), s')
           | (None, s') \<Rightarrow> series_loop fd streamCb ts' rest s'))"

text \<open>
  The loop \<^verbatim>\<open>for { ... stream.NextProto(res) ... }\<close>: every message starts with
  \<^verbatim>\<open>var ts prompb.TimeSeries\<close>, the zero value.
\<close>

fun stream_loop :: "decoder \<Rightarrow> 'w StreamCallback \<Rightarrow> ChunkedReadResponse list \<Rightarrow> error \<Rightarrow> 'w state
    \<Rightarrow> error option outcome \<times> 'w state" where
  "stream_loop fd streamCb [] err s =
     (if err = EOF then (Return None, s) else (Return (Some err), s))"
| "stream_loop fd streamCb (res # rest) err s =
     (case series_loop fd streamCb \<lparr>TimeSeries.Labels = [], Samples = []\<rparr> (ChunkedSeries res) s of
        (Panic p, s') \<Rightarrow> (Panic p, s')
      | (Return (Some err'), s') \<Rightarrow> (Return (Some err'), s')
      | (Return None, s') \<Rightarrow> stream_loop fd streamCb rest err s')"

text \<open>
  The four header lines and the credentials that \<^verbatim>\<open>fetch\<close> puts on the request
  returned by \<^verbatim>\<open>http.NewRequest\<close>.
\<close>

definition build_request :: "Client \<Rightarrow> Request \<Rightarrow> Request" where
  "build_request c req0 =
     (let req1 = Header_Set ''X-Prometheus-Remote-Read-Version'' ''0.1.0''
                  (Header_Set ''Content-Type'' ''application/x-protobuf''
                    (Header_Add ''Accept-Encoding'' ''snappy''
                      (Header_Add ''Content-Encoding'' ''snappy'' req0)))
      in if user c \<noteq> '''' then SetBasicAuth (user c) (password c) req1 else req1)"

text \<open>
  The buffer taken from \<^verbatim>\<open>bodyBufferPool\<close> and the deferred \<^verbatim>\<open>resp.Body.Close()\<close>
  have no effect on what \<^verbatim>\<open>fetch\<close> returns or delivers, and are left out.
\<close>

definition fetch :: "'w extern \<Rightarrow> Client \<Rightarrow> bytes \<Rightarrow> 'w StreamCallback \<Rightarrow> 'w state
    \<Rightarrow> error option outcome \<times> 'w state" where
  "fetch x c data streamCb s =
     (case NewRequest x ''POST'' (addr c @ remoteReadPath) data of
        Inl err \<Rightarrow> (Return (Some (ErrNewRequest err)), s)
      | Inr req0 \<Rightarrow>
          (let req = build_request c req0
           in case Do x req (world s) of
                (Inl err, w) \<Rightarrow>
                  (Return (Some (ErrSending (Redacted (URL req)) err (int (length data))
                                   (int (length data)))),
                   s\<lparr>world := w, sent := sent s + 1\<rparr>)
              | (Inr resp, w) \<Rightarrow>
                  (let s' = s\<lparr>world := w, sent := sent s + 1\<rparr>
                   in if StatusCode resp \<noteq> StatusNoContent \<and> StatusCode resp \<noteq> StatusOK
                      then (Return (Some (ErrResponseCode (StatusCode resp) (Redacted (URL req))
                                            (ReadAll (Response.Body resp)))), s')
                      else stream_loop (FromData x) streamCb (frames (Response.Body resp))
                             (ending (Response.Body resp)) s')))"

subsection \<open>Read\<close>

definition attempts :: nat where "attempts = 5"

text \<open>The loop \<^verbatim>\<open>for i := 0; i < attempts; i++\<close> and the \<^verbatim>\<open>return nil\<close> after it.\<close>

function attempts_loop :: "'w extern \<Rightarrow> Client \<Rightarrow> bytes \<Rightarrow> 'w StreamCallback \<Rightarrow> nat \<Rightarrow> 'w state
    \<Rightarrow> error option outcome \<times> 'w state" where
  "attempts_loop x c b streamCb i s =
     (if i < attempts then
        (case fetch x c b streamCb s of
           (Panic p, s') \<Rightarrow> (Panic p, s')
         | (Return (Some err), s') \<Rightarrow>
             if errors_Is_Canceled err then (Return (Some ErrProcessStoped), s')
             else attempts_loop x c b streamCb (i + 1)
                    (s'\<lparr>logged := logged s' @ [(i + 1, err)], slept := slept s' + 1\<rparr>)
         | (Return None, s') \<Rightarrow> (Return None, s'))
      else (Return None, s))"
  by pat_completeness auto
termination
  by (relation "measure (\<lambda>(x, c, b, streamCb, i, s). attempts - i)") auto

declare attempts_loop.simps [simp del]

definition Read :: "'w extern \<Rightarrow> Client \<Rightarrow> Filter \<Rightarrow> 'w StreamCallback \<Rightarrow> 'w state
    \<Rightarrow> error option outcome \<times> 'w state" where
  "Read x c flt streamCb s =
     (case query (NewFastRegexMatcher x) c flt of
        Panic p \<Rightarrow> (Panic p, s)
      | Return (Inl err) \<Rightarrow> (Return (Some (ErrPrepareQuery err)), s)
      | Return (Inr q) \<Rightarrow>
          (let req = \<lparr>Queries = [q], AcceptedResponseTypes = [ReadRequest_STREAMED_XOR_CHUNKS]\<rparr>
           in case Marshal x req of
                Inl err \<Rightarrow> (Return (Some (ErrMarshal err)), s)
              | Inr data \<Rightarrow> attempts_loop x c (Encode x data) streamCb 0 s))"

subsection \<open>What the callback is expected to receive\<close>

text \<open>
  The statement of the accumulation within a message, written independently of the
  loops and of \<^verbatim>\<open>parseSamples\<close>: the samples that the iterator of a chunk yields, those
  of all chunks of a series entry, the value accumulated over the entries \<open>s1..si\<close>,
  the values passed for one message (one for every \<open>i\<close>), and those for a sequence of
  messages.
\<close>

definition chunk_samples :: "decoder \<Rightarrow> Chunk \<Rightarrow> Sample list" where
  "chunk_samples fd chunk =
     (case fd (Data chunk) of
        Return (Inr it) \<Rightarrow> map (\<lambda>(e, ts, v). \<lparr>Sample.Value = v, Timestamp = ts\<rparr>) (steps it)
      | _ \<Rightarrow> [])"

definition decoded :: "decoder \<Rightarrow> ChunkedSeries \<Rightarrow> Sample list" where
  "decoded fd series = concat (map (chunk_samples fd) (Chunks series))"

definition accumulated :: "decoder \<Rightarrow> ChunkedSeries list \<Rightarrow> TimeSeries" where
  "accumulated fd ss =
     \<lparr>TimeSeries.Labels = concat (map ChunkedSeries.Labels ss),
      Samples = concat (map (decoded fd) ss)\<rparr>"

definition message_calls :: "decoder \<Rightarrow> ChunkedReadResponse \<Rightarrow> TimeSeries list" where
  "message_calls fd res =
     map (\<lambda>i. accumulated fd (take (Suc i) (ChunkedSeries res))) [0..<length (ChunkedSeries res)]"

definition stream_calls :: "decoder \<Rightarrow> ChunkedReadResponse list \<Rightarrow> TimeSeries list" where
  "stream_calls fd msgs = concat (map (message_calls fd) msgs)"

text \<open>
  The callback invoked on the values of a list in order, up to its first error: the
  answer of the last invocation and the world it leaves.
\<close>

fun feed :: "'w StreamCallback \<Rightarrow> TimeSeries list \<Rightarrow> 'w \<Rightarrow> error option \<times> 'w" where
  "feed streamCb [] w = (None, w)"
| "feed streamCb (ts # rest) w =
     (case streamCb ts w of
        (Some err, w') \<Rightarrow> (Some err, w')
      | (None, w') \<Rightarrow> feed streamCb rest w')"

subsection \<open>What it means that a chunk decodes, or fails to\<close>

text \<open>
  A chunk decodes when the chunk package returns an iterator that reports no error.
  Decoding fails with an error in three ways: the payload is refused
  (\<^verbatim>\<open>error read chunk\<close>), the iterator reports an error after a call of \<^verbatim>\<open>Next\<close> that
  returned true (\<^verbatim>\<open>error iterate over chunks\<close>), or it reports one once \<^verbatim>\<open>Next\<close> has
  returned false. A panic of the chunk package is neither.
\<close>

fun first_error :: "(error option \<times> int64 \<times> float64) list \<Rightarrow> error option" where
  "first_error [] = None"
| "first_error ((e, ts, v) # rest) = (case e of Some err \<Rightarrow> Some err | None \<Rightarrow> first_error rest)"

definition decodes :: "decoder \<Rightarrow> Chunk \<Rightarrow> bool" where
  "decodes fd chunk =
     (case fd (Data chunk) of
        Return (Inr it) \<Rightarrow> first_error (steps it) = None \<and> final it = None
      | _ \<Rightarrow> False)"

definition decode_failure :: "decoder \<Rightarrow> Chunk \<Rightarrow> error option" where
  "decode_failure fd chunk =
     (case fd (Data chunk) of
        Panic p \<Rightarrow> None
      | Return (Inl err) \<Rightarrow> Some (ErrReadChunk err)
      | Return (Inr it) \<Rightarrow>
          (case first_error (steps it) of
             Some err \<Rightarrow> Some (ErrIterate err)
           | None \<Rightarrow> final it))"

subsection \<open>Concrete libraries, endpoints and inputs\<close>

text \<open>
  A regexp compiler that rejects the pattern \<^verbatim>\<open>[\<close>, as the one of Go does, and accepts
  the others.
\<close>

definition demo_compile :: "string \<Rightarrow> error option" where
  "demo_compile p =
     (if p = ''['' then Some (Foreign ''error parsing regexp: missing closing ]'') else None)"

text \<open>
  A chunk decoder for chunks of a simple form. As the chunk package does, it takes the
  first two bytes for a header and panics when they are missing. The first byte 255
  makes it refuse the payload, a second byte other than 0 says that the chunk is
  truncated, every further byte \<open>b\<close> is one sample with timestamp and value \<open>b\<close>, and
  the byte 255 among them makes the iterator report an error.
\<close>

definition demo_FromData :: decoder where
  "demo_FromData chunk =
     (case chunk of
        h1 # h2 # bs \<Rightarrow>
          if h1 = 255 then Return (Inl (Foreign ''invalid chunk encoding''))
          else Return (Inr \<lparr>steps = map (\<lambda>b. (if b = 255 then Some (Foreign ''bad sample'') else None,
                                              ucast b, ucast b)) bs,
                           final = (if h2 = 0 then None else Some (Foreign ''unexpected EOF''))\<rparr>)
      | _ \<Rightarrow> Panic (Foreign ''runtime error: slice bounds out of range''))"

definition demo_NewRequest :: "string \<Rightarrow> string \<Rightarrow> bytes \<Rightarrow> error + Request" where
  "demo_NewRequest method url body =
     Inr \<lparr>Method = method, URL = \<lparr>Redacted = url\<rparr>, Header = (\<lambda>key. []),
          Request.Body = body, BasicAuth = None\<rparr>"

text \<open>An endpoint that gives the same answer to every request.\<close>

definition demo_extern :: "error + Response \<Rightarrow> 'w extern" where
  "demo_extern answer =
     \<lparr>NewFastRegexMatcher = demo_compile,
      Marshal = (\<lambda>req. Inr []),
      Encode = (\<lambda>data. data),
      NewRequest = demo_NewRequest,
      Do = (\<lambda>req w. (answer, w)),
      FromData = demo_FromData\<rparr>"

definition demo_client :: Client where
  "demo_client = \<lparr>addr = ''http://127.0.0.1:9090'', user = '''', password = ''''\<rparr>"

text \<open>A callback that accepts every series and does nothing.\<close>

definition demo_callback :: "'w StreamCallback" where
  "demo_callback ts w = (None, w)"

definition demo_start :: "unit state" where
  "demo_start = \<lparr>world = (), sent = 0, delivered = [], logged = [], slept = 0\<rparr>"

text \<open>A callback that keeps the series it receives, in a world that is the list of them.\<close>

definition recording_callback :: "TimeSeries list StreamCallback" where
  "recording_callback ts w = (None, w @ [ts])"

definition recording_start :: "TimeSeries list state" where
  "recording_start = \<lparr>world = [], sent = 0, delivered = [], logged = [], slept = 0\<rparr>"

definition unavailable :: Response where
  "unavailable =
     \<lparr>StatusCode = 503,
      Response.Body = \<lparr>ReadAll = ''Service Unavailable'', frames = [], ending = EOF\<rparr>\<rparr>"

definition no_content :: Response where
  "no_content = \<lparr>StatusCode = 204, Response.Body = \<lparr>ReadAll = [], frames = [], ending = EOF\<rparr>\<rparr>"

text \<open>
  An endpoint that answers 503 to the first \<open>n\<close> requests; during the next one the
  context is canceled. The world is the number of requests made so far.
\<close>

definition canceled_after :: "nat \<Rightarrow> nat extern" where
  "canceled_after n =
     \<lparr>NewFastRegexMatcher = demo_compile,
      Marshal = (\<lambda>req. Inr []),
      Encode = (\<lambda>data. data),
      NewRequest = demo_NewRequest,
      Do = (\<lambda>req w. (if w < n then Inr unavailable else Inl (Wrapping ''Post'' Canceled), w + 1)),
      FromData = demo_FromData\<rparr>"

definition counting_start :: "nat state" where
  "counting_start = \<lparr>world = 0, sent = 0, delivered = [], logged = [], slept = 0\<rparr>"

definition demo_label :: "string \<Rightarrow> string \<Rightarrow> Label" where
  "demo_label n v = \<lparr>Label.Name = n, Label.Value = v\<rparr>"

definition demo_chunk :: "bytes \<Rightarrow> Chunk" where
  "demo_chunk bs = \<lparr>MinTimeMs = 0, MaxTimeMs = 0, Data = bs\<rparr>"

definition demo_sample :: "64 word \<Rightarrow> Sample" where
  "demo_sample b = \<lparr>Sample.Value = b, Timestamp = b\<rparr>"

text \<open>
  A response with two messages. The first has two series entries, the first of them with
  two chunks; the second message has one entry.
\<close>

definition demo_stream :: "ChunkedReadResponse list" where
  "demo_stream =
     [\<lparr>ChunkedSeries =
         [\<lparr>ChunkedSeries.Labels = [demo_label ''__name__'' ''up''],
           Chunks = [demo_chunk [0, 0, 1, 2], demo_chunk [0, 0, 3]]\<rparr>,
          \<lparr>ChunkedSeries.Labels = [demo_label ''job'' ''node''],
           Chunks = [demo_chunk [0, 0, 4]]\<rparr>],
       QueryIndex = 0\<rparr>,
      \<lparr>ChunkedSeries =
         [\<lparr>ChunkedSeries.Labels = [demo_label ''__name__'' ''down''],
           Chunks = [demo_chunk [0, 0, 9]]\<rparr>],
       QueryIndex = 0\<rparr>]"



definition streamed :: "ChunkedReadResponse list \<Rightarrow> Response" where
  "streamed msgs = \<lparr>StatusCode = 200, Response.Body = \<lparr>ReadAll = [], frames = msgs, ending = EOF\<rparr>\<rparr>"

section \<open>Properties\<close>

subsection \<open>The query built from a filter\<close>

lemma MustNewMatcher_Regexp:
  "MustNewMatcher compile MatchRegexp n v =
     (case compile v of Some err \<Rightarrow> Panic err
      | None \<Rightarrow> Return \<lparr>Matcher.Type = MatchRegexp, Matcher.Name = n, Matcher.Value = v\<rparr>)"
  by (simp add: MustNewMatcher_def NewMatcher_def split: option.splits)

lemma toLabelMatchers_Regexp:
  "toLabelMatchers \<lparr>Matcher.Type = MatchRegexp, Matcher.Name = n, Matcher.Value = v\<rparr> =
     Inr \<lparr>LabelMatcher.Type = LabelMatcher_RE, LabelMatcher.Name = n, LabelMatcher.Value = v\<rparr>"
  by (simp add: toLabelMatchers_def MatchEqual_def MatchNotEqual_def MatchRegexp_def)

lemma query_any_metric:
  assumes "Label flt = ''''" and "LabelValue flt = ''''"
  shows "query compile c flt =
     (case compile ''.+'' of
        Some err \<Rightarrow> Panic err
      | None \<Rightarrow> Return (Inr \<lparr>StartTimestampMs = Filter_Min flt, EndTimestampMs = Filter_Max flt - 1,
           Matchers = [\<lparr>LabelMatcher.Type = LabelMatcher_RE, LabelMatcher.Name = MetricName,
                        LabelMatcher.Value = ''.+''\<rparr>]\<rparr>))"
  using assms
  by (simp add: query_def MustNewMatcher_Regexp toLabelMatchers_Regexp split: option.splits)

lemma query_one_label:
  assumes "\<not> (Label flt = '''' \<and> LabelValue flt = '''')"
  shows "query compile c flt =
     (case compile (LabelValue flt) of
        Some err \<Rightarrow> Panic err
      | None \<Rightarrow> Return (Inr \<lparr>StartTimestampMs = Filter_Min flt, EndTimestampMs = Filter_Max flt - 1,
           Matchers = [\<lparr>LabelMatcher.Type = LabelMatcher_RE, LabelMatcher.Name = Label flt,
                        LabelMatcher.Value = LabelValue flt\<rparr>]\<rparr>))"
proof (cases "compile (LabelValue flt)")
  case None
  with assms show ?thesis
    by (auto simp: query_def MustNewMatcher_Regexp toLabelMatchers_Regexp)
next
  case (Some err)
  with assms show ?thesis
    by (auto simp: query_def MustNewMatcher_Regexp)
qed

text \<open>
  C3: whenever \<^verbatim>\<open>query\<close> builds a query, the query has exactly one matcher. For a
  filter whose \<open>Label\<close> and \<open>LabelValue\<close> are both empty it is the regexp matcher
  with the pattern \<^verbatim>\<open>.+\<close> on the metric name label, otherwise it is the regexp
  matcher with the name \<open>Label\<close> and the pattern \<open>LabelValue\<close> of the filter.
\<close>

theorem query_single_regex_matcher:
  assumes "query compile c flt = Return (Inr q)"
  shows "Matchers q =
    [if Label flt = '''' \<and> LabelValue flt = ''''
     then \<lparr>LabelMatcher.Type = LabelMatcher_RE, LabelMatcher.Name = MetricName,
           LabelMatcher.Value = ''.+''\<rparr>
     else \<lparr>LabelMatcher.Type = LabelMatcher_RE, LabelMatcher.Name = Label flt,
           LabelMatcher.Value = LabelValue flt\<rparr>]"
proof (cases "Label flt = '''' \<and> LabelValue flt = ''''")
  case True
  with assms show ?thesis
    by (auto simp: query_any_metric split: option.splits)
next
  case False
  with assms show ?thesis
    by (auto simp: query_one_label split: option.splits)
qed

theorem query_single_regex_matcher_witness:
  "query demo_compile demo_client
       \<lparr>Filter_Min = 1000, Filter_Max = 2000, Label = ''job'', LabelValue = ''node.*''\<rparr> =
     Return (Inr \<lparr>StartTimestampMs = 1000, EndTimestampMs = 1999,
       Matchers = [\<lparr>LabelMatcher.Type = LabelMatcher_RE, LabelMatcher.Name = ''job'',
                    LabelMatcher.Value = ''node.*''\<rparr>]\<rparr>)
   \<and> Matchers \<lparr>StartTimestampMs = 1000, EndTimestampMs = 1999,
       Matchers = [\<lparr>LabelMatcher.Type = LabelMatcher_RE, LabelMatcher.Name = ''job'',
                    LabelMatcher.Value = ''node.*''\<rparr>]\<rparr> =
     [\<lparr>LabelMatcher.Type = LabelMatcher_RE, LabelMatcher.Name = ''job'',
       LabelMatcher.Value = ''node.*''\<rparr>]"
proof -
  have q: "query demo_compile demo_client
       \<lparr>Filter_Min = 1000, Filter_Max = 2000, Label = ''job'', LabelValue = ''node.*''\<rparr> =
     Return (Inr \<lparr>StartTimestampMs = 1000, EndTimestampMs = 1999,
       Matchers = [\<lparr>LabelMatcher.Type = LabelMatcher_RE, LabelMatcher.Name = ''job'',
                    LabelMatcher.Value = ''node.*''\<rparr>]\<rparr>)"
    by (simp add: query_one_label demo_compile_def)
  from query_single_regex_matcher [OF q] q show ?thesis by simp
qed

text \<open>
  C4: whenever \<^verbatim>\<open>query\<close> builds a query, its start timestamp is \<open>Min\<close> of the
  filter, its end timestamp is \<open>Max - 1\<close> (in 64-bit arithmetic, as the subtraction of
  the program), and its list of matchers has length one.
\<close>

theorem query_time_range:
  assumes "query compile c flt = Return (Inr q)"
  shows "StartTimestampMs q = Filter_Min flt \<and> EndTimestampMs q = Filter_Max flt - 1
    \<and> length (Matchers q) = 1"
proof (cases "Label flt = '''' \<and> LabelValue flt = ''''")
  case True
  with assms show ?thesis
    by (auto simp: query_any_metric split: option.splits)
next
  case False
  with assms show ?thesis
    by (auto simp: query_one_label split: option.splits)
qed

theorem query_time_range_witness:
  "query demo_compile demo_client
       \<lparr>Filter_Min = 0, Filter_Max = 60000, Label = '''', LabelValue = ''''\<rparr> =
     Return (Inr \<lparr>StartTimestampMs = 0, EndTimestampMs = 59999,
       Matchers = [\<lparr>LabelMatcher.Type = LabelMatcher_RE, LabelMatcher.Name = ''__name__'',
                    LabelMatcher.Value = ''.+''\<rparr>]\<rparr>)
   \<and> StartTimestampMs \<lparr>StartTimestampMs = 0, EndTimestampMs = 59999,
       Matchers = [\<lparr>LabelMatcher.Type = LabelMatcher_RE, LabelMatcher.Name = ''__name__'',
                    LabelMatcher.Value = ''.+''\<rparr>]\<rparr> = (0 :: int64)
   \<and> EndTimestampMs \<lparr>StartTimestampMs = 0, EndTimestampMs = 59999,
       Matchers = [\<lparr>LabelMatcher.Type = LabelMatcher_RE, LabelMatcher.Name = ''__name__'',
                    LabelMatcher.Value = ''.+''\<rparr>]\<rparr> = (60000 :: int64) - 1"
proof -
  have q: "query demo_compile demo_client
       \<lparr>Filter_Min = 0, Filter_Max = 60000, Label = '''', LabelValue = ''''\<rparr> =
     Return (Inr \<lparr>StartTimestampMs = 0, EndTimestampMs = 59999,
       Matchers = [\<lparr>LabelMatcher.Type = LabelMatcher_RE, LabelMatcher.Name = ''__name__'',
                    LabelMatcher.Value = ''.+''\<rparr>]\<rparr>)"
    by (simp add: query_any_metric demo_compile_def MetricName_def)
  from query_time_range [OF q] q show ?thesis by simp
qed

text \<open>
  The subtraction is the one of \<^verbatim>\<open>int64\<close>: for \<open>Max\<close> the least value, the end
  timestamp is the greatest one.
\<close>

lemma query_end_wraps:
  "query demo_compile demo_client
       \<lparr>Filter_Min = 0, Filter_Max = - 9223372036854775808, Label = '''', LabelValue = ''''\<rparr> =
     Return (Inr \<lparr>StartTimestampMs = 0, EndTimestampMs = 9223372036854775807,
       Matchers = [\<lparr>LabelMatcher.Type = LabelMatcher_RE, LabelMatcher.Name = MetricName,
                    LabelMatcher.Value = ''.+''\<rparr>]\<rparr>)"
  by (simp add: query_any_metric demo_compile_def)

text \<open>
  C10: whenever \<^verbatim>\<open>query\<close> runs to completion it returns a query and a nil error: the
  conversion of the matcher never ends in the branch \<^verbatim>\<open>invalid matcher type\<close>, since
  both branches build a regexp matcher (see \<open>toLabelMatchers_Regexp\<close>).
\<close>

theorem query_no_invalid_matcher:
  assumes "query compile c flt = Return r"
  shows "\<exists>q. r = Inr q"
proof (cases "Label flt = '''' \<and> LabelValue flt = ''''")
  case True
  with assms show ?thesis
    by (auto simp: query_any_metric split: option.splits)
next
  case False
  with assms show ?thesis
    by (auto simp: query_one_label split: option.splits)
qed

theorem query_no_invalid_matcher_witness:
  "\<exists>q. query demo_compile demo_client
         \<lparr>Filter_Min = 5, Filter_Max = 10, Label = ''instance'', LabelValue = ''''\<rparr> = Return (Inr q)"
proof -
  obtain r where r: "query demo_compile demo_client
      \<lparr>Filter_Min = 5, Filter_Max = 10, Label = ''instance'', LabelValue = ''''\<rparr> = Return r"
    by (simp add: query_one_label demo_compile_def)
  from query_no_invalid_matcher [OF r] r show ?thesis by auto
qed

text \<open>
  C7: for a filter whose \<open>LabelValue\<close> is not a valid regular expression (and that is not
  the filter with both fields empty), the construction of the matcher panics with the
  error of the regexp compiler: \<^verbatim>\<open>query\<close> returns no error, and \<^verbatim>\<open>Read\<close> panics as
  well instead of returning \<^verbatim>\<open>error prepare stream query\<close>. The witness is the filter
  with the pattern \<^verbatim>\<open>[\<close>.
\<close>

theorem query_panics_on_invalid_regexp:
  assumes "\<not> (Label flt = '''' \<and> LabelValue flt = '''')"
    and "NewFastRegexMatcher x (LabelValue flt) = Some err"
  shows "query (NewFastRegexMatcher x) c flt = Panic err \<and> Read x c flt streamCb s = (Panic err, s)"
  using assms by (simp add: Read_def query_one_label)

theorem query_panics_on_invalid_regexp_witness:
  "query demo_compile demo_client
       \<lparr>Filter_Min = 0, Filter_Max = 1, Label = ''job'', LabelValue = ''[''\<rparr> =
     Panic (Foreign ''error parsing regexp: missing closing ]'')
   \<and> Read (demo_extern (Inr no_content)) demo_client
       \<lparr>Filter_Min = 0, Filter_Max = 1, Label = ''job'', LabelValue = ''[''\<rparr> demo_callback demo_start =
     (Panic (Foreign ''error parsing regexp: missing closing ]''), demo_start)"
  using query_panics_on_invalid_regexp [of "\<lparr>Filter_Min = 0, Filter_Max = 1, Label = ''job'', LabelValue = ''[''\<rparr>"
      "demo_extern (Inr no_content)" "Foreign ''error parsing regexp: missing closing ]''"
      demo_client demo_callback demo_start]
  by (simp add: demo_extern_def demo_compile_def)

subsection \<open>One attempt\<close>

lemma fetch_responded:
  assumes "NewRequest x ''POST'' (addr c @ remoteReadPath) data = Inr req0"
    and "Do x (build_request c req0) (world s) = (Inr resp, w)"
  shows "fetch x c data streamCb s =
     (if StatusCode resp \<noteq> 204 \<and> StatusCode resp \<noteq> 200
      then (Return (Some (ErrResponseCode (StatusCode resp) (Redacted (URL (build_request c req0)))
                            (ReadAll (Response.Body resp)))), s\<lparr>world := w, sent := sent s + 1\<rparr>)
      else stream_loop (FromData x) streamCb (frames (Response.Body resp))
             (ending (Response.Body resp)) (s\<lparr>world := w, sent := sent s + 1\<rparr>))"
  using assms by (simp add: fetch_def Let_def StatusNoContent_def StatusOK_def)

text \<open>
  C8: for a response whose status code is neither 200 nor 204, \<^verbatim>\<open>fetch\<close> reads the
  body and fails with the error made of the status code, the redacted URL and the body;
  the state changes by the request only, so the callback is not invoked.
\<close>

theorem fetch_unexpected_status:
  assumes "NewRequest x ''POST'' (addr c @ remoteReadPath) data = Inr req0"
    and "Do x (build_request c req0) (world s) = (Inr resp, w)"
    and "StatusCode resp \<noteq> 200" and "StatusCode resp \<noteq> 204"
  shows "fetch x c data streamCb s =
      (Return (Some (ErrResponseCode (StatusCode resp) (Redacted (URL (build_request c req0)))
                       (ReadAll (Response.Body resp)))),
       s\<lparr>world := w, sent := sent s + 1\<rparr>)
    \<and> delivered (snd (fetch x c data streamCb s)) = delivered s"
  using assms by (simp add: fetch_responded)

theorem fetch_unexpected_status_witness:
  "fetch (demo_extern (Inr unavailable)) demo_client [1, 2, 3] demo_callback demo_start =
     (Return (Some (ErrResponseCode 503 ''http://127.0.0.1:9090/api/v1/read'' ''Service Unavailable'')),
      demo_start\<lparr>sent := 1\<rparr>)
   \<and> delivered (snd (fetch (demo_extern (Inr unavailable)) demo_client [1, 2, 3] demo_callback demo_start)) = []"
proof -
  let ?req0 = "\<lparr>Method = ''POST'', URL = \<lparr>Redacted = ''http://127.0.0.1:9090/api/v1/read''\<rparr>,
     Header = (\<lambda>key. []), Request.Body = [1, 2, 3], BasicAuth = None\<rparr>"
  have a: "NewRequest (demo_extern (Inr unavailable)) ''POST'' (addr demo_client @ remoteReadPath) [1, 2, 3]
      = Inr ?req0"
    by (simp add: demo_extern_def demo_NewRequest_def demo_client_def remoteReadPath_def)
  have b: "Do (demo_extern (Inr unavailable)) (build_request demo_client ?req0) (world demo_start)
      = (Inr unavailable, ())"
    by (simp add: demo_extern_def)
  have c: "StatusCode unavailable \<noteq> 200" and d: "StatusCode unavailable \<noteq> 204"
    by (simp_all add: unavailable_def)
  from fetch_unexpected_status [OF a b c d, of demo_callback] show ?thesis
    by (simp add: unavailable_def build_request_def demo_client_def Header_Add_def Header_Set_def
        demo_start_def)
qed

text \<open>
  C9: when the endpoint answers 204 and the first read of a framed message gives
  \<^verbatim>\<open>io.EOF\<close>, \<^verbatim>\<open>fetch\<close> returns nil and the callback is not invoked.
\<close>

theorem fetch_no_content_empty_stream:
  assumes "NewRequest x ''POST'' (addr c @ remoteReadPath) data = Inr req0"
    and "Do x (build_request c req0) (world s) = (Inr resp, w)"
    and "StatusCode resp = 204"
    and "frames (Response.Body resp) = []" and "ending (Response.Body resp) = EOF"
  shows "fetch x c data streamCb s = (Return None, s\<lparr>world := w, sent := sent s + 1\<rparr>)
    \<and> delivered (snd (fetch x c data streamCb s)) = delivered s"
  using assms by (simp add: fetch_responded)

theorem fetch_no_content_empty_stream_witness:
  "fetch (demo_extern (Inr no_content)) demo_client [7] demo_callback demo_start =
     (Return None, demo_start\<lparr>sent := 1\<rparr>)
   \<and> delivered (snd (fetch (demo_extern (Inr no_content)) demo_client [7] demo_callback demo_start)) = []"
proof -
  let ?req0 = "\<lparr>Method = ''POST'', URL = \<lparr>Redacted = ''http://127.0.0.1:9090/api/v1/read''\<rparr>,
     Header = (\<lambda>key. []), Request.Body = [7], BasicAuth = None\<rparr>"
  have a: "NewRequest (demo_extern (Inr no_content)) ''POST'' (addr demo_client @ remoteReadPath) [7]
      = Inr ?req0"
    by (simp add: demo_extern_def demo_NewRequest_def demo_client_def remoteReadPath_def)
  have b: "Do (demo_extern (Inr no_content)) (build_request demo_client ?req0) (world demo_start)
      = (Inr no_content, ())"
    by (simp add: demo_extern_def)
  have c: "StatusCode no_content = 204"
    and d: "frames (Response.Body no_content) = []" and e: "ending (Response.Body no_content) = EOF"
    by (simp_all add: no_content_def)
  from fetch_no_content_empty_stream [OF a b c d e, of demo_callback] show ?thesis
    by (simp add: demo_start_def)
qed

subsection \<open>The retry loop\<close>

lemma attempts_loop_canceled:
  assumes "i < attempts" and "fetch x c b streamCb s = (Return (Some err), s')"
    and "errors_Is_Canceled err"
  shows "attempts_loop x c b streamCb i s = (Return (Some ErrProcessStoped), s')"
  using assms by (simp add: attempts_loop.simps)

lemma attempts_loop_retry:
  assumes "i < attempts" and "fetch x c b streamCb s = (Return (Some err), s')"
    and "\<not> errors_Is_Canceled err"
  shows "attempts_loop x c b streamCb i s =
    attempts_loop x c b streamCb (i + 1) (s'\<lparr>logged := logged s' @ [(i + 1, err)], slept := slept s' + 1\<rparr>)"
  using assms by (subst attempts_loop.simps) simp

lemma attempts_loop_success:
  assumes "i < attempts" and "fetch x c b streamCb s = (Return None, s')"
  shows "attempts_loop x c b streamCb i s = (Return None, s')"
  using assms by (simp add: attempts_loop.simps)

lemma attempts_loop_panic:
  assumes "i < attempts" and "fetch x c b streamCb s = (Panic p, s')"
  shows "attempts_loop x c b streamCb i s = (Panic p, s')"
  using assms by (simp add: attempts_loop.simps)

lemma attempts_loop_exhausted:
  assumes "\<not> i < attempts"
  shows "attempts_loop x c b streamCb i s = (Return None, s)"
  using assms by (simp add: attempts_loop.simps)

lemma Read_loop:
  assumes "query (NewFastRegexMatcher x) c flt = Return (Inr q)"
    and "Marshal x \<lparr>Queries = [q], AcceptedResponseTypes = [ReadRequest_STREAMED_XOR_CHUNKS]\<rparr> = Inr data"
  shows "Read x c flt streamCb s = attempts_loop x c (Encode x data) streamCb 0 s"
  using assms by (simp add: Read_def)

text \<open>
  The attempts before a cancellation: \<open>st j\<close> is the state in which attempt \<open>j\<close>
  starts. When the first \<open>k\<close> attempts fail with errors that are not
  \<^verbatim>\<open>context.Canceled\<close>, the loop reaches attempt \<open>k\<close> in the state \<open>st k\<close>.
\<close>

lemma attempts_loop_after_failures:
  assumes "k \<le> attempts"
    and "\<forall>j<k. \<exists>s'. fetch x c b streamCb (st j) = (Return (Some (er j)), s')
           \<and> \<not> errors_Is_Canceled (er j)
           \<and> st (j + 1) = s'\<lparr>logged := logged s' @ [(j + 1, er j)], slept := slept s' + 1\<rparr>"
  shows "attempts_loop x c b streamCb 0 (st 0) = attempts_loop x c b streamCb k (st k)"
  using assms
proof (induction k)
  case 0
  then show ?case by simp
next
  case (Suc k)
  then have "attempts_loop x c b streamCb 0 (st 0) = attempts_loop x c b streamCb k (st k)"
    by simp
  moreover from Suc.prems obtain s' where "fetch x c b streamCb (st k) = (Return (Some (er k)), s')"
    and "\<not> errors_Is_Canceled (er k)"
    and "st (k + 1) = s'\<lparr>logged := logged s' @ [(k + 1, er k)], slept := slept s' + 1\<rparr>"
    by (metis lessI)
  moreover from Suc.prems have "k < attempts"
    by simp
  ultimately show ?case
    by (simp add: attempts_loop_retry)
qed

text \<open>
  C5: \<^verbatim>\<open>Read\<close> has built and encoded the request, the first \<open>k\<close> attempts (any number
  below five, also none) have failed with errors other than \<^verbatim>\<open>context.Canceled\<close>, each
  followed by a log line and a sleep, and attempt \<open>k\<close> fails with an error that is
  \<^verbatim>\<open>context.Canceled\<close>. Then \<^verbatim>\<open>Read\<close> returns the error \<^verbatim>\<open>process stoped\<close> in the
  state that this \<^verbatim>\<open>fetch\<close> left: no sleep, no log line and no request after it.
\<close>

theorem Read_canceled_is_terminal:
  assumes "query (NewFastRegexMatcher x) c flt = Return (Inr q)"
    and "Marshal x \<lparr>Queries = [q], AcceptedResponseTypes = [ReadRequest_STREAMED_XOR_CHUNKS]\<rparr> = Inr data"
    and "k < attempts"
    and "st 0 = s"
    and "\<forall>j<k. \<exists>s'. fetch x c (Encode x data) streamCb (st j) = (Return (Some (er j)), s')
           \<and> \<not> errors_Is_Canceled (er j)
           \<and> st (j + 1) = s'\<lparr>logged := logged s' @ [(j + 1, er j)], slept := slept s' + 1\<rparr>"
    and "fetch x c (Encode x data) streamCb (st k) = (Return (Some err), s')"
    and "errors_Is_Canceled err"
  shows "Read x c flt streamCb s = (Return (Some ErrProcessStoped), s')"
proof -
  from assms(3) have "k \<le> attempts"
    by simp
  from attempts_loop_after_failures [OF this assms(5)] assms(4)
  have "attempts_loop x c (Encode x data) streamCb 0 s =
      attempts_loop x c (Encode x data) streamCb k (st k)"
    by simp
  also from assms(3,6,7) have "\<dots> = (Return (Some ErrProcessStoped), s')"
    by (rule attempts_loop_canceled)
  finally show ?thesis
    by (simp add: Read_loop [OF assms(1,2)])
qed

lemma fetch_canceled_after:
  "fetch (canceled_after n) demo_client b demo_callback s =
     (if world s < n
      then (Return (Some (ErrResponseCode 503 ''http://127.0.0.1:9090/api/v1/read''
                            ''Service Unavailable'')),
            s\<lparr>world := world s + 1, sent := sent s + 1\<rparr>)
      else (Return (Some (ErrSending ''http://127.0.0.1:9090/api/v1/read'' (Wrapping ''Post'' Canceled)
                            (int (length b)) (int (length b)))),
            s\<lparr>world := world s + 1, sent := sent s + 1\<rparr>))"
  by (simp add: fetch_def canceled_after_def demo_NewRequest_def demo_client_def remoteReadPath_def
      build_request_def Header_Add_def Header_Set_def unavailable_def StatusOK_def StatusNoContent_def)

theorem Read_canceled_is_terminal_witness:
  "Read (canceled_after 2) demo_client
       \<lparr>Filter_Min = 0, Filter_Max = 1000, Label = '''', LabelValue = ''''\<rparr> demo_callback
       counting_start =
     (Return (Some ErrProcessStoped),
      \<lparr>world = 3, sent = 3, delivered = [],
       logged = [(1, ErrResponseCode 503 ''http://127.0.0.1:9090/api/v1/read'' ''Service Unavailable''),
                 (2, ErrResponseCode 503 ''http://127.0.0.1:9090/api/v1/read'' ''Service Unavailable'')],
       slept = 2\<rparr>)"
proof -
  let ?x = "canceled_after 2"
  let ?e = "ErrResponseCode 503 ''http://127.0.0.1:9090/api/v1/read'' ''Service Unavailable''"
  let ?err = "ErrSending ''http://127.0.0.1:9090/api/v1/read'' (Wrapping ''Post'' Canceled) 0 0"
  let ?flt = "\<lparr>Filter_Min = 0, Filter_Max = 1000, Label = '''', LabelValue = ''''\<rparr>"
  let ?q = "\<lparr>StartTimestampMs = 0, EndTimestampMs = 999,
       Matchers = [\<lparr>LabelMatcher.Type = LabelMatcher_RE, LabelMatcher.Name = MetricName,
                    LabelMatcher.Value = ''.+''\<rparr>]\<rparr>"
  let ?s1 = "\<lparr>world = 1 :: nat, sent = 1, delivered = [], logged = [(1, ?e)], slept = 1\<rparr>"
  let ?s2 = "\<lparr>world = 2 :: nat, sent = 2, delivered = [], logged = [(1, ?e), (2, ?e)], slept = 2\<rparr>"
  let ?s' = "\<lparr>world = 3 :: nat, sent = 3, delivered = [], logged = [(1, ?e), (2, ?e)], slept = 2\<rparr>"
  define st where "st = (\<lambda>j :: nat. if j = 0 then counting_start else if j = 1 then ?s1 else ?s2)"
  define er where "er = (\<lambda>j :: nat. ?e)"
  have q: "query (NewFastRegexMatcher ?x) demo_client ?flt = Return (Inr ?q)"
    by (simp add: query_any_metric canceled_after_def demo_compile_def)
  have m: "Marshal ?x \<lparr>Queries = [?q], AcceptedResponseTypes = [ReadRequest_STREAMED_XOR_CHUNKS]\<rparr> = Inr []"
    by (simp add: canceled_after_def)
  have k: "(2 :: nat) < attempts"
    by (simp add: attempts_def)
  have s0: "st 0 = counting_start"
    by (simp add: st_def)
  have failures: "\<forall>j<2. \<exists>s'. fetch ?x demo_client (Encode ?x []) demo_callback (st j) =
        (Return (Some (er j)), s')
      \<and> \<not> errors_Is_Canceled (er j)
      \<and> st (j + 1) = s'\<lparr>logged := logged s' @ [(j + 1, er j)], slept := slept s' + 1\<rparr>"
  proof (intro allI impI)
    fix j :: nat
    assume "j < 2"
    then consider "j = 0" | "j = 1"
      by linarith
    then show "\<exists>s'. fetch ?x demo_client (Encode ?x []) demo_callback (st j) =
        (Return (Some (er j)), s')
      \<and> \<not> errors_Is_Canceled (er j)
      \<and> st (j + 1) = s'\<lparr>logged := logged s' @ [(j + 1, er j)], slept := slept s' + 1\<rparr>"
      by cases (simp_all add: fetch_canceled_after counting_start_def st_def er_def)
  qed
  have enc: "Encode ?x [] = []"
    by (simp add: canceled_after_def)
  have canceled: "fetch ?x demo_client (Encode ?x []) demo_callback (st 2) = (Return (Some ?err), ?s')"
    by (simp add: enc fetch_canceled_after st_def)
  have is_canceled: "errors_Is_Canceled ?err"
    by simp
  from Read_canceled_is_terminal [OF q m k s0 failures canceled is_canceled]
  show ?thesis .
qed

lemma fetch_demo_unavailable:
  "fetch (demo_extern (Inr unavailable)) demo_client b demo_callback (s :: unit state) =
     (Return (Some (ErrResponseCode 503 ''http://127.0.0.1:9090/api/v1/read''
                      ''Service Unavailable'')),
      s\<lparr>sent := sent s + 1\<rparr>)"
  by (simp add: fetch_def demo_extern_def demo_NewRequest_def demo_client_def remoteReadPath_def
      build_request_def Header_Add_def Header_Set_def unavailable_def StatusOK_def StatusNoContent_def)

lemma attempts_loop_demo_unavailable:
  assumes "i < 5"
  shows "attempts_loop (demo_extern (Inr unavailable)) demo_client b demo_callback i
       \<lparr>world = (), sent = n, delivered = [], logged = l, slept = m\<rparr> =
     attempts_loop (demo_extern (Inr unavailable)) demo_client b demo_callback (i + 1)
       \<lparr>world = (), sent = n + 1, delivered = [],
        logged = l @ [(i + 1, ErrResponseCode 503 ''http://127.0.0.1:9090/api/v1/read''
                              ''Service Unavailable'')],
        slept = m + 1\<rparr>"
  using assms
  by (subst attempts_loop.simps) (simp add: attempts_def fetch_demo_unavailable)

text \<open>
  When every attempt fails with an error that is not \<^verbatim>\<open>context.Canceled\<close>, the loop
  runs out of attempts and returns nil.
\<close>

lemma attempts_loop_all_fail:
  assumes "\<And>s. \<exists>err s'. fetch x c b streamCb s = (Return (Some err), s') \<and> \<not> errors_Is_Canceled err"
  shows "fst (attempts_loop x c b streamCb i s) = Return None"
proof (induction "attempts - i" arbitrary: i s)
  case 0
  then show ?case
    by (simp add: attempts_loop_exhausted)
next
  case (Suc n)
  then have i: "i < attempts" and n: "n = attempts - (i + 1)"
    by simp_all
  from assms obtain err s' where f: "fetch x c b streamCb s = (Return (Some err), s')"
    and nc: "\<not> errors_Is_Canceled err"
    by blast
  from Suc.hyps(1) [OF n] show ?case
    by (simp add: attempts_loop_retry [OF i f nc])
qed

text \<open>
  C1: the program run against an endpoint that answers 503 to every request. \<^verbatim>\<open>Read\<close>
  sends five requests, logs five failures, sleeps five times and then returns nil, not
  an error.
\<close>

theorem Read_exhausted_returns_nil:
  "Read (demo_extern (Inr unavailable)) demo_client
       \<lparr>Filter_Min = 0, Filter_Max = 1000, Label = '''', LabelValue = ''''\<rparr> demo_callback demo_start =
     (Return None,
       \<lparr>world = (), sent = 5, delivered = [],
        logged = map (\<lambda>i. (i, ErrResponseCode 503 ''http://127.0.0.1:9090/api/v1/read''
                                 ''Service Unavailable'')) [1, 2, 3, 4, 5],
        slept = 5\<rparr>)"
proof -
  let ?x = "demo_extern (Inr unavailable) :: unit extern"
  let ?e = "ErrResponseCode 503 ''http://127.0.0.1:9090/api/v1/read'' ''Service Unavailable''"
  let ?loop = "attempts_loop ?x demo_client (Encode ?x []) demo_callback"
  have q: "query (NewFastRegexMatcher ?x) demo_client
       \<lparr>Filter_Min = 0, Filter_Max = 1000, Label = '''', LabelValue = ''''\<rparr> =
     Return (Inr \<lparr>StartTimestampMs = 0, EndTimestampMs = 999,
       Matchers = [\<lparr>LabelMatcher.Type = LabelMatcher_RE, LabelMatcher.Name = MetricName,
                    LabelMatcher.Value = ''.+''\<rparr>]\<rparr>)"
    by (simp add: query_any_metric demo_extern_def demo_compile_def)
  have "?loop 0 demo_start =
      ?loop 1 \<lparr>world = (), sent = 1, delivered = [], logged = [(1, ?e)], slept = 1\<rparr>"
    using attempts_loop_demo_unavailable [of 0 "Encode ?x []" 0 "[]" 0]
    by (simp add: demo_start_def)
  also have "\<dots> = ?loop 2 \<lparr>world = (), sent = 2, delivered = [],
      logged = [(1, ?e), (2, ?e)], slept = 2\<rparr>"
    using attempts_loop_demo_unavailable [of 1 "Encode ?x []" 1 "[(1, ?e)]" 1] by (simp add: eval_nat_numeral)
  also have "\<dots> = ?loop 3 \<lparr>world = (), sent = 3, delivered = [],
      logged = [(1, ?e), (2, ?e), (3, ?e)], slept = 3\<rparr>"
    using attempts_loop_demo_unavailable [of 2 "Encode ?x []" 2 "[(1, ?e), (2, ?e)]" 2] by (simp add: eval_nat_numeral)
  also have "\<dots> = ?loop 4 \<lparr>world = (), sent = 4, delivered = [],
      logged = [(1, ?e), (2, ?e), (3, ?e), (4, ?e)], slept = 4\<rparr>"
    using attempts_loop_demo_unavailable [of 3 "Encode ?x []" 3 "[(1, ?e), (2, ?e), (3, ?e)]" 3]
    by (simp add: eval_nat_numeral)
  also have "\<dots> = ?loop 5 \<lparr>world = (), sent = 5, delivered = [],
      logged = [(1, ?e), (2, ?e), (3, ?e), (4, ?e), (5, ?e)], slept = 5\<rparr>"
    using attempts_loop_demo_unavailable [of 4 "Encode ?x []" 4
        "[(1, ?e), (2, ?e), (3, ?e), (4, ?e)]" 4]
    by (simp add: eval_nat_numeral)
  also have "\<dots> = (Return None, \<lparr>world = (), sent = 5, delivered = [],
      logged = [(1, ?e), (2, ?e), (3, ?e), (4, ?e), (5, ?e)], slept = 5\<rparr>)"
    by (simp add: attempts_loop_exhausted attempts_def)
  finally have loop: "?loop 0 demo_start = (Return None, \<lparr>world = (), sent = 5, delivered = [],
      logged = [(1, ?e), (2, ?e), (3, ?e), (4, ?e), (5, ?e)], slept = 5\<rparr>)" .
  have m: "Marshal ?x req = Inr []" for req
    by (simp add: demo_extern_def)
  show ?thesis
    by (simp add: Read_def q m loop)
qed

subsection \<open>Decoding a chunk\<close>

lemma iterate_clean:
  assumes "first_error sts = None"
  shows "iterate sts fin samples =
    (samples @ map (\<lambda>(e, ts, v). \<lparr>Sample.Value = v, Timestamp = ts\<rparr>) sts, fin)"
  using assms
proof (induction sts arbitrary: samples)
  case Nil
  then show ?case by simp
next
  case (Cons st sts)
  obtain e ts v where st: "st = (e, ts, v)"
    by (cases st)
  with Cons.prems have "e = None" and "first_error sts = None"
    by (auto split: option.splits)
  with Cons.IH st show ?case
    by simp
qed

lemma iterate_error:
  assumes "first_error sts = Some err"
  shows "iterate sts fin samples = ([], Some (ErrIterate err))"
  using assms
proof (induction sts arbitrary: samples)
  case Nil
  then show ?case by simp
next
  case (Cons st sts)
  obtain e ts v where st: "st = (e, ts, v)"
    by (cases st)
  show ?case
  proof (cases e)
    case None
    with Cons.prems st have "first_error sts = Some err"
      by simp
    with Cons.IH None st show ?thesis
      by simp
  next
    case (Some err')
    with Cons.prems st show ?thesis
      by simp
  qed
qed

lemma first_error_none:
  assumes "\<forall>st\<in>set sts. fst st = None"
  shows "first_error sts = None"
  using assms by (induction sts) auto

lemma first_error_at:
  assumes "\<forall>st\<in>set pre. fst st = None"
  shows "first_error (pre @ (Some err, ts, v) # post) = Some err"
  using assms by (induction pre) auto

text \<open>
  The four answers of the chunk package and what \<^verbatim>\<open>parseSamples\<close> makes of them: a
  refused payload, an error reported during the iteration, an error reported at its
  end, and a panic.
\<close>

lemma parseSamples_refused:
  assumes "fd chunk = Return (Inl err)"
  shows "parseSamples fd chunk = Return ([], Some (ErrReadChunk err))"
  using assms by (simp add: parseSamples_def)

lemma parseSamples_iteration_error:
  assumes "fd chunk = Return (Inr it)"
    and "steps it = pre @ (Some err, ts, v) # post"
    and "\<forall>st\<in>set pre. fst st = None"
  shows "parseSamples fd chunk = Return ([], Some (ErrIterate err))"
  using assms by (simp add: parseSamples_def iterate_error first_error_at)

lemma parseSamples_final_error:
  assumes "fd chunk = Return (Inr it)"
    and "\<forall>st\<in>set (steps it). fst st = None"
    and "final it = Some err"
  shows "parseSamples fd chunk =
    Return (map (\<lambda>(e, ts, v). \<lparr>Sample.Value = v, Timestamp = ts\<rparr>) (steps it), Some err)"
  using assms by (simp add: parseSamples_def iterate_clean first_error_none)

lemma parseSamples_panic:
  assumes "fd chunk = Panic p"
  shows "parseSamples fd chunk = Panic p"
  using assms by (simp add: parseSamples_def)

lemma decode_failure_refused:
  assumes "fd (Data chunk) = Return (Inl err)"
  shows "decode_failure fd chunk = Some (ErrReadChunk err)"
  using assms by (simp add: decode_failure_def)

lemma decode_failure_iteration:
  assumes "fd (Data chunk) = Return (Inr it)"
    and "steps it = pre @ (Some err, ts, v) # post"
    and "\<forall>st\<in>set pre. fst st = None"
  shows "decode_failure fd chunk = Some (ErrIterate err)"
  using assms by (simp add: decode_failure_def first_error_at)

lemma decode_failure_final:
  assumes "fd (Data chunk) = Return (Inr it)"
    and "\<forall>st\<in>set (steps it). fst st = None"
    and "final it = Some err"
  shows "decode_failure fd chunk = Some err"
  using assms by (simp add: decode_failure_def first_error_none)

lemma parseSamples_decodes:
  assumes "decodes fd chunk"
  shows "parseSamples fd (Data chunk) = Return (chunk_samples fd chunk, None)"
proof (cases "fd (Data chunk)")
  case (Panic p)
  with assms show ?thesis
    by (simp add: decodes_def)
next
  case (Return r)
  with assms obtain it where "r = Inr it"
    by (cases r) (simp_all add: decodes_def)
  with assms Return show ?thesis
    by (simp add: decodes_def parseSamples_def chunk_samples_def iterate_clean)
qed


lemma parseSamples_samples:
  assumes "parseSamples fd (Data chunk) = Return (samples, None)"
  shows "samples = chunk_samples fd chunk"
proof (cases "fd (Data chunk)")
  case (Panic p)
  with assms show ?thesis
    by (simp add: parseSamples_def)
next
  case (Return r)
  show ?thesis
  proof (cases r)
    case (Inl e)
    with assms Return show ?thesis
      by (simp add: parseSamples_def)
  next
    case (Inr it)
    show ?thesis
    proof (cases "first_error (steps it)")
      case None
      with assms Return Inr show ?thesis
        by (auto simp: parseSamples_def chunk_samples_def iterate_clean)
    next
      case (Some e)
      with assms Return Inr show ?thesis
        by (simp add: parseSamples_def iterate_error)
    qed
  qed
qed

subsection \<open>The values passed to the callback\<close>

lemma chunks_loop_ok:
  assumes "chunks_loop fd ts cs = Return (None, ts')"
  shows "ts' = ts\<lparr>Samples := Samples ts @ concat (map (chunk_samples fd) cs)\<rparr>"
  using assms
proof (induction cs arbitrary: ts)
  case Nil
  then show ?case by simp
next
  case (Cons chunk cs)
  from Cons.prems obtain samples where p: "parseSamples fd (Data chunk) = Return (samples, None)"
    and rest: "chunks_loop fd (ts\<lparr>Samples := Samples ts @ samples\<rparr>) cs = Return (None, ts')"
    by (auto split: outcome.splits option.splits)
  from Cons.IH [OF rest] parseSamples_samples [OF p] show ?case
    by simp
qed

lemma chunks_loop_series:
  assumes "chunks_loop fd (ts\<lparr>TimeSeries.Labels := TimeSeries.Labels ts @ ChunkedSeries.Labels series\<rparr>)
             (Chunks series) = Return (None, ts')"
  shows "ts' = \<lparr>TimeSeries.Labels = TimeSeries.Labels ts @ TimeSeries.Labels (accumulated fd [series]),
               Samples = Samples ts @ Samples (accumulated fd [series])\<rparr>"
  using chunks_loop_ok [OF assms] by (simp add: accumulated_def decoded_def)

lemma accumulated_Cons:
  "accumulated fd (series # ss) =
     \<lparr>TimeSeries.Labels = ChunkedSeries.Labels series @ TimeSeries.Labels (accumulated fd ss),
      Samples = decoded fd series @ Samples (accumulated fd ss)\<rparr>"
  by (simp add: accumulated_def)

lemma accumulated_Nil: "accumulated fd [] = \<lparr>TimeSeries.Labels = [], Samples = []\<rparr>"
  by (simp add: accumulated_def)

lemma call_world:
  assumes "call streamCb ts s = (r, s')"
  shows "streamCb ts (world s) = (r, world s')" and "delivered s' = delivered s @ [ts]"
  using assms by (auto simp: call_def split: prod.splits)

lemma feed_append:
  assumes "feed streamCb xs w = (None, w')"
  shows "feed streamCb (xs @ ys) w = feed streamCb ys w'"
  using assms
proof (induction xs arbitrary: w)
  case Nil
  then show ?case by simp
next
  case (Cons ts xs)
  then show ?case
    by (cases "streamCb ts w") (auto split: option.splits)
qed

lemma series_loop_delivered:
  assumes "series_loop fd streamCb ts ss s = (r, s')"
  shows "\<exists>k\<le>length ss.
      delivered s' = delivered s @
        map (\<lambda>i. \<lparr>TimeSeries.Labels = TimeSeries.Labels ts @ TimeSeries.Labels (accumulated fd (take (Suc i) ss)),
                  Samples = Samples ts @ Samples (accumulated fd (take (Suc i) ss))\<rparr>) [0..<k]
      \<and> world s' = snd (feed streamCb
          (map (\<lambda>i. \<lparr>TimeSeries.Labels = TimeSeries.Labels ts @ TimeSeries.Labels (accumulated fd (take (Suc i) ss)),
                  Samples = Samples ts @ Samples (accumulated fd (take (Suc i) ss))\<rparr>) [0..<k]) (world s))
      \<and> (r = Return None \<longrightarrow> k = length ss \<and> fst (feed streamCb
          (map (\<lambda>i. \<lparr>TimeSeries.Labels = TimeSeries.Labels ts @ TimeSeries.Labels (accumulated fd (take (Suc i) ss)),
                  Samples = Samples ts @ Samples (accumulated fd (take (Suc i) ss))\<rparr>) [0..<k]) (world s)) = None)"
  using assms
proof (induction ss arbitrary: ts s)
  case Nil
  then show ?case by simp
next
  case (Cons series ss)
  let ?ts0 = "ts\<lparr>TimeSeries.Labels := TimeSeries.Labels ts @ ChunkedSeries.Labels series\<rparr>"
  let ?f = "\<lambda>i. \<lparr>TimeSeries.Labels = TimeSeries.Labels ts @
                    TimeSeries.Labels (accumulated fd (take (Suc i) (series # ss))),
                  Samples = Samples ts @ Samples (accumulated fd (take (Suc i) (series # ss)))\<rparr>"
  show ?case
  proof (cases "chunks_loop fd ?ts0 (Chunks series)")
    case (Panic p)
    with Cons.prems have "s' = s" and "r = Panic p"
      by simp_all
    then show ?thesis
      by (intro exI [of _ 0]) simp
  next
    case (Return res)
    obtain r1 ts1 where res: "res = (r1, ts1)"
      by (cases res)
    show ?thesis
    proof (cases r1)
      case (Some err)
      with Return res Cons.prems have "s' = s" and "r = Return (Some err)"
        by simp_all
      then show ?thesis
        by (intro exI [of _ 0]) simp
    next
      case None
      with Return res have ts1: "ts1 = \<lparr>TimeSeries.Labels = TimeSeries.Labels ts @ TimeSeries.Labels (accumulated fd [series]),
               Samples = Samples ts @ Samples (accumulated fd [series])\<rparr>"
        by (simp add: chunks_loop_series)
      then have f0: "?f 0 = ts1"
        by simp
      obtain r2 s2 where cl: "call streamCb ts1 s = (r2, s2)"
        by (cases "call streamCb ts1 s")
      note cw = call_world [OF cl]
      show ?thesis
      proof (cases r2)
        case (Some err)
        with None Return res cl Cons.prems have "s' = s2" and "r = Return (Some err)"
          by simp_all
        with cw f0 Some show ?thesis
          by (intro exI [of _ 1]) simp
      next
        case r2: None
        with None Return res cl Cons.prems have rest: "series_loop fd streamCb ts1 ss s2 = (r, s')"
          by simp
        let ?g = "\<lambda>i. \<lparr>TimeSeries.Labels = TimeSeries.Labels ts1 @ TimeSeries.Labels (accumulated fd (take (Suc i) ss)),
                    Samples = Samples ts1 @ Samples (accumulated fd (take (Suc i) ss))\<rparr>"
        from Cons.IH [OF rest] obtain k where k: "k \<le> length ss"
          and d: "delivered s' = delivered s2 @ map ?g [0..<k]"
          and w: "world s' = snd (feed streamCb (map ?g [0..<k]) (world s2))"
          and full: "r = Return None \<longrightarrow> k = length ss \<and> fst (feed streamCb (map ?g [0..<k]) (world s2)) = None"
          by blast
        have g: "?g i = ?f (Suc i)" for i
          by (simp add: ts1 accumulated_Cons accumulated_Nil)
        have calls: "map ?f [0..<Suc k] = ts1 # map ?g [0..<k]"
          unfolding map_upt_Suc f0 g ..
        have fd: "feed streamCb (map ?f [0..<Suc k]) (world s) = feed streamCb (map ?g [0..<k]) (world s2)"
          unfolding calls using cw(1) r2 by simp
        from k have A: "Suc k \<le> length (series # ss)"
          by simp
        from d cw(2) have B: "delivered s' = delivered s @ map ?f [0..<Suc k]"
          unfolding calls by simp
        from w have C: "world s' = snd (feed streamCb (map ?f [0..<Suc k]) (world s))"
          unfolding fd .
        from full have D: "r = Return None \<longrightarrow> Suc k = length (series # ss)
            \<and> fst (feed streamCb (map ?f [0..<Suc k]) (world s)) = None"
          unfolding fd by auto
        from A B C D show ?thesis
          by blast
      qed
    qed
  qed
qed

lemma message_delivered:
  assumes "series_loop fd streamCb \<lparr>TimeSeries.Labels = [], Samples = []\<rparr> (ChunkedSeries res) s = (r, s')"
  shows "\<exists>k\<le>length (message_calls fd res).
      delivered s' = delivered s @ take k (message_calls fd res)
      \<and> world s' = snd (feed streamCb (take k (message_calls fd res)) (world s))
      \<and> (r = Return None \<longrightarrow> k = length (message_calls fd res)
            \<and> fst (feed streamCb (message_calls fd res) (world s)) = None)"
proof -
  have eta: "\<lparr>TimeSeries.Labels = TimeSeries.Labels t, Samples = Samples t\<rparr> = t" for t :: TimeSeries
    by simp
  let ?f = "\<lambda>i. accumulated fd (take (Suc i) (ChunkedSeries res))"
  from series_loop_delivered [OF assms] obtain k where k: "k \<le> length (ChunkedSeries res)"
    and d: "delivered s' = delivered s @ map ?f [0..<k]"
    and w: "world s' = snd (feed streamCb (map ?f [0..<k]) (world s))"
    and full: "r = Return None \<longrightarrow> k = length (ChunkedSeries res)
        \<and> fst (feed streamCb (map ?f [0..<k]) (world s)) = None"
    by (auto simp: eta)
  from k have t: "take k (message_calls fd res) = map ?f [0..<k]"
    by (simp add: message_calls_def take_map)
  from k d w full show ?thesis
    unfolding t [symmetric]
    by (intro exI [of _ k]) (auto simp: message_calls_def)
qed

lemma stream_loop_delivered:
  assumes "stream_loop fd streamCb msgs err s = (r, s')"
  shows "(\<exists>k. delivered s' = delivered s @ take k (stream_calls fd msgs)
            \<and> world s' = snd (feed streamCb (take k (stream_calls fd msgs)) (world s)))
    \<and> (r = Return None \<longrightarrow> delivered s' = delivered s @ stream_calls fd msgs
          \<and> feed streamCb (stream_calls fd msgs) (world s) = (None, world s'))"
  using assms
proof (induction msgs arbitrary: s)
  case Nil
  then have "s' = s"
    by (auto split: if_splits)
  then show ?case
    by (simp add: stream_calls_def)
next
  case (Cons res msgs)
  let ?empty = "\<lparr>TimeSeries.Labels = [], Samples = []\<rparr>"
  obtain r1 s1 where sl: "series_loop fd streamCb ?empty (ChunkedSeries res) s = (r1, s1)"
    by (cases "series_loop fd streamCb ?empty (ChunkedSeries res) s")
  from message_delivered [OF sl] obtain k where k: "k \<le> length (message_calls fd res)"
    and d1: "delivered s1 = delivered s @ take k (message_calls fd res)"
    and w1: "world s1 = snd (feed streamCb (take k (message_calls fd res)) (world s))"
    and full1: "r1 = Return None \<longrightarrow> k = length (message_calls fd res)
        \<and> fst (feed streamCb (message_calls fd res) (world s)) = None"
    by blast
  have calls: "stream_calls fd (res # msgs) = message_calls fd res @ stream_calls fd msgs"
    by (simp add: stream_calls_def)
  show ?case
  proof (cases "r1 = Return None")
    case False
    with sl Cons.prems have "r = r1" and "s' = s1"
      by (cases r1; auto split: option.splits)+
    with False d1 w1 k show ?thesis
      by (auto simp: calls intro: exI [of _ k])
  next
    case True
    with sl Cons.prems have rest: "stream_loop fd streamCb msgs err s1 = (r, s')"
      by simp
    from True full1 d1 w1 have d1': "delivered s1 = delivered s @ message_calls fd res"
      and f1: "feed streamCb (message_calls fd res) (world s) = (None, world s1)"
      by (simp_all add: prod_eq_iff)
    from Cons.IH [OF rest] obtain k' where
      d: "delivered s' = delivered s1 @ take k' (stream_calls fd msgs)"
      and w: "world s' = snd (feed streamCb (take k' (stream_calls fd msgs)) (world s1))"
      and full: "r = Return None \<longrightarrow> delivered s' = delivered s1 @ stream_calls fd msgs
          \<and> feed streamCb (stream_calls fd msgs) (world s1) = (None, world s')"
      by blast
    let ?n = "length (message_calls fd res) + k'"
    have "delivered s' = delivered s @ take ?n (stream_calls fd (res # msgs))"
      by (simp add: d d1' calls)
    moreover have "world s' = snd (feed streamCb (take ?n (stream_calls fd (res # msgs))) (world s))"
      by (simp add: w calls feed_append [OF f1])
    moreover from full have "r = Return None \<longrightarrow>
        delivered s' = delivered s @ stream_calls fd (res # msgs)
        \<and> feed streamCb (stream_calls fd (res # msgs)) (world s) = (None, world s')"
      by (simp add: d1' calls feed_append [OF f1])
    ultimately show ?thesis
      by blast
  qed
qed

text \<open>
  C2: when the endpoint answers 200 or 204, the callback is invoked on the first \<open>k\<close>
  values of \<open>stream_calls\<close>, in their order, for some \<open>k\<close>: the world that \<^verbatim>\<open>fetch\<close>
  leaves is the one the callback makes of these values, and they are the invocations
  recorded. \<open>stream_calls\<close> has, for every message and every series entry \<open>si\<close> of it,
  the labels of the entries \<open>s1..si\<close> of that message and the samples of all their
  chunks. When \<^verbatim>\<open>fetch\<close> returns nil, the callback has been invoked on all of them and
  has accepted them.
\<close>

theorem callback_receives_accumulated_series:
  assumes "NewRequest x ''POST'' (addr c @ remoteReadPath) data = Inr req0"
    and "Do x (build_request c req0) (world s) = (Inr resp, w)"
    and "StatusCode resp = 200 \<or> StatusCode resp = 204"
    and "fetch x c data streamCb s = (r, s')"
  shows "(\<exists>k. world s' = snd (feed streamCb (take k (stream_calls (FromData x) (frames (Response.Body resp)))) w)
            \<and> delivered s' = delivered s @ take k (stream_calls (FromData x) (frames (Response.Body resp))))
    \<and> (r = Return None \<longrightarrow>
          feed streamCb (stream_calls (FromData x) (frames (Response.Body resp))) w = (None, world s')
          \<and> delivered s' = delivered s @ stream_calls (FromData x) (frames (Response.Body resp)))"
proof -
  from assms have "stream_loop (FromData x) streamCb (frames (Response.Body resp))
      (ending (Response.Body resp)) (s\<lparr>world := w, sent := sent s + 1\<rparr>) = (r, s')"
    by (auto simp: fetch_responded)
  from stream_loop_delivered [OF this] show ?thesis
    by auto
qed

lemma demo_fetch_streamed:
  "fetch (demo_extern (Inr (streamed msgs))) demo_client data streamCb s =
     stream_loop demo_FromData streamCb msgs EOF (s\<lparr>sent := sent s + 1\<rparr>)"
  by (simp add: fetch_def demo_extern_def demo_NewRequest_def streamed_def StatusOK_def
      StatusNoContent_def)

lemma recording_call:
  "call recording_callback ts s = (None, s\<lparr>world := world s @ [ts], delivered := delivered s @ [ts]\<rparr>)"
  by (simp add: call_def recording_callback_def)

lemma demo_parseSamples:
  "parseSamples demo_FromData (h1 # h2 # bs) =
     (if h1 = 255 then Return ([], Some (ErrReadChunk (Foreign ''invalid chunk encoding'')))
      else Return (iterate (map (\<lambda>b. (if b = 255 then Some (Foreign ''bad sample'') else None,
                                        ucast b, ucast b)) bs)
             (if h2 = 0 then None else Some (Foreign ''unexpected EOF'')) []))"
  by (simp add: parseSamples_def demo_FromData_def)

theorem callback_receives_accumulated_series_witness:
  "fetch (demo_extern (Inr (streamed demo_stream))) demo_client [] recording_callback recording_start =
     (Return None,
      recording_start\<lparr>sent := 1,
        world :=
          [\<lparr>TimeSeries.Labels = [demo_label ''__name__'' ''up''],
            Samples = [demo_sample 1, demo_sample 2, demo_sample 3]\<rparr>,
           \<lparr>TimeSeries.Labels = [demo_label ''__name__'' ''up'', demo_label ''job'' ''node''],
            Samples = [demo_sample 1, demo_sample 2, demo_sample 3, demo_sample 4]\<rparr>,
           \<lparr>TimeSeries.Labels = [demo_label ''__name__'' ''down''], Samples = [demo_sample 9]\<rparr>],
        delivered :=
          [\<lparr>TimeSeries.Labels = [demo_label ''__name__'' ''up''],
            Samples = [demo_sample 1, demo_sample 2, demo_sample 3]\<rparr>,
           \<lparr>TimeSeries.Labels = [demo_label ''__name__'' ''up'', demo_label ''job'' ''node''],
            Samples = [demo_sample 1, demo_sample 2, demo_sample 3, demo_sample 4]\<rparr>,
           \<lparr>TimeSeries.Labels = [demo_label ''__name__'' ''down''], Samples = [demo_sample 9]\<rparr>]\<rparr>)
   \<and> stream_calls demo_FromData demo_stream =
        [\<lparr>TimeSeries.Labels = [demo_label ''__name__'' ''up''],
          Samples = [demo_sample 1, demo_sample 2, demo_sample 3]\<rparr>,
         \<lparr>TimeSeries.Labels = [demo_label ''__name__'' ''up'', demo_label ''job'' ''node''],
          Samples = [demo_sample 1, demo_sample 2, demo_sample 3, demo_sample 4]\<rparr>,
         \<lparr>TimeSeries.Labels = [demo_label ''__name__'' ''down''], Samples = [demo_sample 9]\<rparr>]"
proof -
  let ?x = "demo_extern (Inr (streamed demo_stream)) :: TimeSeries list extern"
  let ?req0 = "\<lparr>Method = ''POST'', URL = \<lparr>Redacted = ''http://127.0.0.1:9090/api/v1/read''\<rparr>,
     Header = (\<lambda>key. []), Request.Body = [], BasicAuth = None\<rparr>"
  let ?calls = "[\<lparr>TimeSeries.Labels = [demo_label ''__name__'' ''up''],
          Samples = [demo_sample 1, demo_sample 2, demo_sample 3]\<rparr>,
         \<lparr>TimeSeries.Labels = [demo_label ''__name__'' ''up'', demo_label ''job'' ''node''],
          Samples = [demo_sample 1, demo_sample 2, demo_sample 3, demo_sample 4]\<rparr>,
         \<lparr>TimeSeries.Labels = [demo_label ''__name__'' ''down''], Samples = [demo_sample 9]\<rparr>]"
  have a: "NewRequest ?x ''POST'' (addr demo_client @ remoteReadPath) [] = Inr ?req0"
    by (simp add: demo_extern_def demo_NewRequest_def demo_client_def remoteReadPath_def)
  have b: "Do ?x (build_request demo_client ?req0) (world recording_start) =
      (Inr (streamed demo_stream), [])"
    by (simp add: demo_extern_def recording_start_def)
  have c: "StatusCode (streamed demo_stream) = 200 \<or> StatusCode (streamed demo_stream) = 204"
    by (simp add: streamed_def)
  have d: "fetch ?x demo_client [] recording_callback recording_start =
      (Return None, recording_start\<lparr>sent := 1, world := ?calls, delivered := ?calls\<rparr>)"
    by (simp add: demo_fetch_streamed demo_stream_def recording_call demo_parseSamples demo_chunk_def
        demo_sample_def recording_start_def)
  have e: "FromData ?x = demo_FromData"
    and f: "frames (Response.Body (streamed demo_stream)) = demo_stream"
    by (simp_all add: demo_extern_def streamed_def)
  from callback_receives_accumulated_series [OF a b c d] have
    "feed recording_callback (stream_calls demo_FromData demo_stream) [] = (None, ?calls)"
    by (simp add: e f recording_start_def)
  moreover have "feed recording_callback xs w = (None, w @ xs)" for xs w
    by (induction xs arbitrary: w) (simp_all add: recording_callback_def)
  ultimately show ?thesis
    using d by simp
qed

subsection \<open>A chunk that fails to decode\<close>


lemma chunks_loop_panic:
  assumes "\<forall>chunk\<in>set good. decodes fd chunk"
    and "fd (Data bad) = Panic p"
  shows "chunks_loop fd ts (good @ bad # others) = Panic p"
  using assms
proof (induction good arbitrary: ts)
  case Nil
  then show ?case
    by (simp add: parseSamples_panic)
next
  case (Cons chunk good)
  then have "decodes fd chunk"
    by simp
  from parseSamples_decodes [OF this] Cons show ?case
    by simp
qed

lemma series_loop_append:
  assumes "series_loop fd streamCb ts earlier s = (Return None, s')"
  shows "series_loop fd streamCb ts (earlier @ rest) s =
    series_loop fd streamCb
      \<lparr>TimeSeries.Labels = TimeSeries.Labels ts @ TimeSeries.Labels (accumulated fd earlier),
       Samples = Samples ts @ Samples (accumulated fd earlier)\<rparr> rest s'"
  using assms
proof (induction earlier arbitrary: ts s)
  case Nil
  have eta: "\<lparr>TimeSeries.Labels = TimeSeries.Labels ts, Samples = Samples ts\<rparr> = ts"
    by simp
  from Nil show ?case
    by (simp add: accumulated_Nil eta)
next
  case (Cons series earlier)
  let ?ts0 = "ts\<lparr>TimeSeries.Labels := TimeSeries.Labels ts @ ChunkedSeries.Labels series\<rparr>"
  from Cons.prems obtain ts1 where ch: "chunks_loop fd ?ts0 (Chunks series) = Return (None, ts1)"
    by (auto split: outcome.splits option.splits)
  then have ts1: "ts1 = \<lparr>TimeSeries.Labels = TimeSeries.Labels ts @ TimeSeries.Labels (accumulated fd [series]),
               Samples = Samples ts @ Samples (accumulated fd [series])\<rparr>"
    by (simp add: chunks_loop_series)
  from Cons.prems ch obtain s2 where cl: "call streamCb ts1 s = (None, s2)"
    and rest: "series_loop fd streamCb ts1 earlier s2 = (Return None, s')"
    by (auto split: prod.splits option.splits)
  from Cons.IH [OF rest] ch cl show ?case
    by (simp add: ts1 accumulated_Cons accumulated_Nil)
qed

lemma stream_loop_append:
  assumes "stream_loop fd streamCb before EOF s = (Return None, s')"
  shows "stream_loop fd streamCb (before @ rest) err s = stream_loop fd streamCb rest err s'"
  using assms
proof (induction before arbitrary: s)
  case Nil
  then show ?case by simp
next
  case (Cons res before)
  let ?empty = "\<lparr>TimeSeries.Labels = [], Samples = []\<rparr>"
  from Cons.prems obtain s1 where sl: "series_loop fd streamCb ?empty (ChunkedSeries res) s = (Return None, s1)"
    and rest: "stream_loop fd streamCb before EOF s1 = (Return None, s')"
    by (auto split: prod.splits outcome.splits option.splits)
  from Cons.IH [OF rest] sl show ?case
    by simp
qed

text \<open>
  \<^verbatim>\<open>fetch\<close> has handled the messages \<open>before\<close> and the entries \<open>earlier\<close> of the message
  \<open>res\<close>, and the chunks of the next entry end the loop (an error or a panic): this is
  what \<^verbatim>\<open>fetch\<close> gives.
\<close>

lemma fetch_stops_at_entry:
  assumes "NewRequest x ''POST'' (addr c @ remoteReadPath) data = Inr req0"
    and "Do x (build_request c req0) (world s) = (Inr resp, w)"
    and "StatusCode resp = 200 \<or> StatusCode resp = 204"
    and "frames (Response.Body resp) = before @ res # after"
    and "stream_loop (FromData x) streamCb before EOF (s\<lparr>world := w, sent := sent s + 1\<rparr>) =
           (Return None, s1)"
    and "ChunkedSeries res = earlier @ series # later"
    and "series_loop (FromData x) streamCb \<lparr>TimeSeries.Labels = [], Samples = []\<rparr> earlier s1 =
           (Return None, s2)"
    and "\<And>ts. series_loop (FromData x) streamCb ts (series # later) s2 = (r, s2)"
    and "r \<noteq> Return None"
  shows "fetch x c data streamCb s = (r, s2)"
proof -
  let ?fd = "FromData x"
  let ?s0 = "s\<lparr>world := w, sent := sent s + 1\<rparr>"
  let ?empty = "\<lparr>TimeSeries.Labels = [], Samples = []\<rparr>"
  have "series_loop ?fd streamCb ?empty (ChunkedSeries res) s1 = (r, s2)"
    unfolding assms(6) series_loop_append [OF assms(7)] by (rule assms(8))
  with assms(9) have "stream_loop ?fd streamCb (res # after) (ending (Response.Body resp)) s1 = (r, s2)"
    by (cases r) (auto split: option.splits)
  then have "stream_loop ?fd streamCb (frames (Response.Body resp)) (ending (Response.Body resp)) ?s0 =
      (r, s2)"
    unfolding assms(4) stream_loop_append [OF assms(5)] .
  with assms(1,2,3) show ?thesis
    by (auto simp: fetch_responded)
qed


text \<open>
  Under the same conditions, when the chunk package panics on the chunk \<open>bad\<close> (as on a
  payload without the header of two bytes), \<^verbatim>\<open>fetch\<close> panics and returns no error.
\<close>

lemma corrupt_chunk_panics_fetch:
  assumes "NewRequest x ''POST'' (addr c @ remoteReadPath) data = Inr req0"
    and "Do x (build_request c req0) (world s) = (Inr resp, w)"
    and "StatusCode resp = 200 \<or> StatusCode resp = 204"
    and "frames (Response.Body resp) = before @ res # after"
    and "stream_loop (FromData x) streamCb before EOF (s\<lparr>world := w, sent := sent s + 1\<rparr>) =
           (Return None, s1)"
    and "ChunkedSeries res = earlier @ series # later"
    and "series_loop (FromData x) streamCb \<lparr>TimeSeries.Labels = [], Samples = []\<rparr> earlier s1 =
           (Return None, s2)"
    and "Chunks series = good @ bad # others"
    and "\<forall>chunk\<in>set good. decodes (FromData x) chunk"
    and "FromData x (Data bad) = Panic p"
  shows "fetch x c data streamCb s = (Panic p, s2)"
proof -
  have "series_loop (FromData x) streamCb ts (series # later) s2 = (Panic p, s2)" for ts
    by (simp add: assms(8) chunks_loop_panic [OF assms(9,10)])
  from fetch_stops_at_entry [OF assms(1-7) this] show ?thesis
    by simp
qed



end
